theory Spec2Isabelle
  imports Complex_Main "HOL-Library.Sublist"
begin

section \<open>The sliding-window rate limiter (src/lib/rateLimiter.ts)\<close>

text \<open>
  Timestamps are the integer millisecond readings of \<^verbatim>\<open>Date.now()\<close>. Every call of
  \<^verbatim>\<open>Date.now()\<close> in the source is a separate argument of the function that makes the
  call, in the order the calls are made, so nothing is assumed about the clock that is not
  written as a hypothesis.

  The store is a JavaScript \<^verbatim>\<open>Map\<close> from identifier to entry: a partial function.
  \<open>maxRequests\<close> is an integer, as in the only limiter the module builds.
\<close>

record RateLimitEntry =
  requests :: "int list"
  lastCleanup :: int

record RateLimitResult =
  allowed :: bool
  limit :: int
  remaining :: int
  resetTime :: int

record RateLimiter =
  store :: "string \<rightharpoonup> RateLimitEntry"
  windowMs :: int
  maxRequests :: int
  cleanupInterval :: int
  lastGlobalCleanup :: int

text \<open>The constructor; \<open>t0\<close> is the reading of the clock that initialises \<open>lastGlobalCleanup\<close>.\<close>

definition RateLimiter_new :: "int \<Rightarrow> int \<Rightarrow> int \<Rightarrow> RateLimiter" where
  "RateLimiter_new t0 w m =
     \<lparr>store = Map.empty, windowMs = w, maxRequests = m,
      cleanupInterval = 60000, lastGlobalCleanup = t0\<rparr>"

text \<open>The module's singleton: \<^verbatim>\<open>new RateLimiter(60000, 10)\<close>.\<close>

definition rateLimiter :: "int \<Rightarrow> RateLimiter" where
  "rateLimiter t0 = RateLimiter_new t0 60000 10"

text \<open>
  The body of the \<^verbatim>\<open>for\<close> loop of \<^verbatim>\<open>cleanup\<close>, for one entry: the entry is deleted
  when no timestamp is left, and otherwise keeps the valid ones. The loop visits every key
  of the map once and touches only that key, so the loop is the pointwise map below.
\<close>

definition cleanup_entry :: "int \<Rightarrow> int \<Rightarrow> RateLimitEntry \<Rightarrow> RateLimitEntry option" where
  "cleanup_entry now w entry =
     (let validRequests = filter (\<lambda>timestamp. now - timestamp < w) (requests entry)
      in if length validRequests = 0 then None
         else Some (entry\<lparr>requests := validRequests, lastCleanup := now\<rparr>))"

definition RateLimiter_cleanup :: "int \<Rightarrow> RateLimiter \<Rightarrow> RateLimiter" where
  "RateLimiter_cleanup now L =
     (if now - lastGlobalCleanup L < cleanupInterval L then L
      else L\<lparr>store := (\<lambda>key. case store L key of
                                None \<Rightarrow> None
                              | Some entry \<Rightarrow> cleanup_entry now (windowMs L) entry),
             lastGlobalCleanup := now\<rparr>)"

text \<open>
  The method \<^verbatim>\<open>checkRateLimit\<close> of the class. \<open>tc\<close> is the reading of the clock inside
  \<^verbatim>\<open>cleanup()\<close>, \<open>now\<close> the one the method takes itself right after.
\<close>

definition RateLimiter_checkRateLimit ::
  "int \<Rightarrow> int \<Rightarrow> string \<Rightarrow> RateLimiter \<Rightarrow> RateLimitResult \<times> RateLimiter" where
  "RateLimiter_checkRateLimit tc now identifier L0 =
     (let L = RateLimiter_cleanup tc L0;
          windowStart = now - windowMs L;
          entry = (case store L identifier of
                     None \<Rightarrow> \<lparr>requests = [], lastCleanup = now\<rparr>
                   | Some e \<Rightarrow> e);
          filtered = filter (\<lambda>timestamp. timestamp > windowStart) (requests entry);
          remaining0 = max 0 (maxRequests L - int (length filtered));
          allowed0 = int (length filtered) < maxRequests L;
          requests1 = (if allowed0 then filtered @ [now] else filtered);
          oldestRequest = (case requests1 of [] \<Rightarrow> now | first # _ \<Rightarrow> first);
          resetTime0 = oldestRequest + windowMs L
      in (\<lparr>allowed = allowed0,
           limit = maxRequests L,
           remaining = (if allowed0 then remaining0 - 1 else remaining0),
           resetTime = resetTime0\<rparr>,
          L\<lparr>store := (store L)(identifier \<mapsto> entry\<lparr>requests := requests1\<rparr>)\<rparr>))"

definition RateLimiter_reset :: "string \<Rightarrow> RateLimiter \<Rightarrow> RateLimiter" where
  "RateLimiter_reset identifier L = L\<lparr>store := (store L)(identifier := None)\<rparr>"



subsection \<open>Sequences of calls\<close>

text \<open>The two methods that change a limiter, with the clock readings of a check.\<close>

datatype Op = Check int int string | Reset string

fun apply_op :: "Op \<Rightarrow> RateLimiter \<Rightarrow> RateLimiter" where
  "apply_op (Check tc now identifier) L = snd (RateLimiter_checkRateLimit tc now identifier L)"
| "apply_op (Reset identifier) L = RateLimiter_reset identifier L"

fun exec :: "Op list \<Rightarrow> RateLimiter \<Rightarrow> RateLimiter" where
  "exec [] L = L"
| "exec (op # ops) L = exec ops (apply_op op L)"

text \<open>The results that the checks of one identifier return, in the order of the calls.\<close>

fun resultsFor :: "string \<Rightarrow> Op list \<Rightarrow> RateLimiter \<Rightarrow> RateLimitResult list" where
  "resultsFor i [] L = []"
| "resultsFor i (Check tc now identifier # ops) L =
     (if identifier = i then [fst (RateLimiter_checkRateLimit tc now identifier L)] else [])
     @ resultsFor i ops (apply_op (Check tc now identifier) L)"
| "resultsFor i (Reset identifier # ops) L = resultsFor i ops (apply_op (Reset identifier) L)"

text \<open>
  An operation of a burst of the identifier \<open>i\<close> inside the window that starts at \<open>T\<close>:
  a check, of any identifier, whose clock readings lie in \<open>[T, T + w)\<close>, or a reset of
  another identifier.
\<close>

fun withinWindow :: "int \<Rightarrow> int \<Rightarrow> string \<Rightarrow> Op \<Rightarrow> bool" where
  "withinWindow T w i (Check tc now identifier) =
     (T \<le> tc \<and> tc < T + w \<and> T \<le> now \<and> now < T + w)"
| "withinWindow T w i (Reset identifier) = (identifier \<noteq> i)"

text \<open>An operation that is not a check of the identifier \<open>i\<close>.\<close>

fun notCheckOf :: "string \<Rightarrow> Op \<Rightarrow> bool" where
  "notCheckOf i (Check tc now identifier) = (identifier \<noteq> i)"
| "notCheckOf i (Reset identifier) = True"


subsection \<open>What a call sees: the timestamps of one identifier\<close>

definition requestsOf :: "string \<Rightarrow> RateLimiter \<Rightarrow> int list" where
  "requestsOf identifier L =
     (case store L identifier of None \<Rightarrow> [] | Some entry \<Rightarrow> requests entry)"

text \<open>The window filter of a check, applied to a list of timestamps.\<close>

definition windowFilter :: "int \<Rightarrow> int \<Rightarrow> int list \<Rightarrow> int list" where
  "windowFilter now w ts = filter (\<lambda>timestamp. timestamp > now - w) ts"

text \<open>
  The timestamps that survive the window filter of a check: the filter runs on what the
  check's own cleanup has left.
\<close>

definition survivors :: "int \<Rightarrow> int \<Rightarrow> string \<Rightarrow> RateLimiter \<Rightarrow> int list" where
  "survivors tc now identifier L =
     windowFilter now (windowMs L) (requestsOf identifier (RateLimiter_cleanup tc L))"

section \<open>Strings and the environment\<close>

text \<open>
  \<^verbatim>\<open>s.split(',')\<close>: the pieces between the separators; never the empty list
  (\<^verbatim>\<open>''.split(',')\<close> is \<^verbatim>\<open>['']\<close>).
\<close>

fun split_from :: "char \<Rightarrow> string \<Rightarrow> string \<Rightarrow> string list" where
  "split_from c piece [] = [piece]"
| "split_from c piece (x # xs) =
     (if x = c then piece # split_from c [] xs else split_from c (piece @ [x]) xs)"

definition split :: "char \<Rightarrow> string \<Rightarrow> string list" where
  "split c s = split_from c [] s"

text \<open>
  \<^verbatim>\<open>s.trim()\<close>. Strings are lists of 8-bit characters here; the white space of the
  model is the ASCII white space and line terminators.
\<close>

definition isWhiteSpace :: "char \<Rightarrow> bool" where
  "isWhiteSpace c = (c \<in> {CHR '' '', CHR 0x09, CHR 0x0A, CHR 0x0B, CHR 0x0C, CHR 0x0D})"

definition trim :: "string \<Rightarrow> string" where
  "trim s = rev (dropWhile isWhiteSpace (rev (dropWhile isWhiteSpace s)))"

text \<open>
  \<^verbatim>\<open>n.toString()\<close> for an integer: its decimal digits, with a minus sign when negative.
\<close>

definition digit :: "nat \<Rightarrow> char" where
  "digit d = ''0123456789'' ! d"

function digits :: "nat \<Rightarrow> string" where
  "digits n = (if n < 10 then [digit n] else digits (n div 10) @ [digit (n mod 10)])"
  by pat_completeness auto
termination
  by (relation "measure (\<lambda>n. n)") auto

declare digits.simps [simp del]

definition toString :: "int \<Rightarrow> string" where
  "toString n = (if n < 0 then CHR ''-'' # digits (nat (- n)) else digits (nat n))"

text \<open>The two variables of \<^verbatim>\<open>process.env\<close> that the code reads; \<open>None\<close> is unset.\<close>

record Env =
  NO_RATE_LIMIT_IPS :: "string option"
  ALLOWED_ORIGINS :: "string option"

text \<open>
  A value used as a condition: \<^verbatim>\<open>null\<close> and the empty string are falsy, every other
  string is truthy.
\<close>

definition truthy :: "string option \<Rightarrow> string option" where
  "truthy v = (case v of None \<Rightarrow> None | Some s \<Rightarrow> if s = [] then None else Some s)"

section \<open>The exported functions of the limiter module\<close>

text \<open>
  \<^verbatim>\<open>process.env.NO_RATE_LIMIT_IPS?.split(',').map(ip => ip.trim()) || []\<close>; an array
  is truthy, so \<^verbatim>\<open>|| []\<close> acts on an unset variable only.
\<close>

definition noRateLimitIps :: "Env \<Rightarrow> string list" where
  "noRateLimitIps env =
     (case NO_RATE_LIMIT_IPS env of None \<Rightarrow> [] | Some s \<Rightarrow> map trim (split CHR '','' s))"

text \<open>
  The exported \<^verbatim>\<open>checkRateLimit\<close>, on the state \<open>L\<close> of the singleton. \<open>t1\<close> and
  \<open>t2\<close> are the first and the second reading of the clock during the call: the bypass
  branch reads it once, the limiter twice.
\<close>

definition checkRateLimit ::
  "Env \<Rightarrow> int \<Rightarrow> int \<Rightarrow> string \<Rightarrow> RateLimiter \<Rightarrow> RateLimitResult \<times> RateLimiter" where
  "checkRateLimit env t1 t2 ip L =
     (if ip \<in> set (noRateLimitIps env)
      then (\<lparr>allowed = True, limit = 10, remaining = 9, resetTime = t1 + 60000\<rparr>, L)
      else RateLimiter_checkRateLimit t1 t2 ip L)"

text \<open>
  A request, as far as the code reads it: the path and the headers, looked up by their
  lower-case names (\<^verbatim>\<open>headers.get\<close> gives \<^verbatim>\<open>null\<close> for an absent header).
\<close>

record Request =
  pathname :: string
  headers :: "string \<rightharpoonup> string"

definition getClientIP :: "Request \<Rightarrow> string" where
  "getClientIP request =
     (case truthy (headers request ''x-forwarded-for'') of
        Some forwarded \<Rightarrow> trim (hd (split CHR '','' forwarded))
      | None \<Rightarrow>
     (case truthy (headers request ''x-real-ip'') of
        Some realIp \<Rightarrow> trim realIp
      | None \<Rightarrow>
     (case truthy (headers request ''cf-connecting-ip'') of
        Some cfConnectingIp \<Rightarrow> trim cfConnectingIp
      | None \<Rightarrow> ''127.0.0.1'')))"

section \<open>The request gate (middleware)\<close>

record ApiError =
  error :: string
  message :: string
  statusCode :: int

text \<open>
  The three responses the middleware builds: \<^verbatim>\<open>NextResponse.next()\<close> with the headers
  set on it, \<^verbatim>\<open>NextResponse.json(body, {status, headers})\<close>, and
  \<^verbatim>\<open>new NextResponse(body, {status})\<close>.
\<close>

datatype Response =
    NextResponse_next "(string \<times> string) list"
  | NextResponse_json ApiError int "(string \<times> string) list"
  | NextResponse_new string int



definition allowedOrigins :: "Env \<Rightarrow> string list" where
  "allowedOrigins env =
     (case ALLOWED_ORIGINS env of None \<Rightarrow> [] | Some s \<Rightarrow> split CHR '','' s)"

definition isAllowedOrigin :: "Env \<Rightarrow> Request \<Rightarrow> bool" where
  "isAllowedOrigin env request =
     (case truthy (headers request ''origin'') of
        None \<Rightarrow> False
      | Some origin \<Rightarrow> origin \<in> set (allowedOrigins env))"

definition isAllowedReferer :: "Env \<Rightarrow> Request \<Rightarrow> bool" where
  "isAllowedReferer env request =
     (case truthy (headers request ''referer'') of
        None \<Rightarrow> False
      | Some referer \<Rightarrow> list_ex (\<lambda>allowed. prefix allowed referer) (allowedOrigins env))"

text \<open>
  \<open>t1\<close>, \<open>t2\<close> are the readings of the clock inside \<^verbatim>\<open>checkRateLimit\<close>, \<open>t3\<close> is
  the reading the middleware takes afterwards for the \<^verbatim>\<open>Retry-After\<close> header.
\<close>

definition middleware ::
  "Env \<Rightarrow> int \<Rightarrow> int \<Rightarrow> int \<Rightarrow> Request \<Rightarrow> RateLimiter \<Rightarrow> Response \<times> RateLimiter" where
  "middleware env t1 t2 t3 request L =
     (if prefix ''/api/public'' (pathname request) then
        (let clientIP = getClientIP request;
             (rateLimitResult, L') = checkRateLimit env t1 t2 clientIP L
         in if \<not> allowed rateLimitResult then
              (NextResponse_json \<lparr>error = ''Too Many Requests'',
                     message = ''Rate limit exceeded. Please try again later.'',
                     statusCode = 429\<rparr>
                    429
                    [(''X-RateLimit-Limit'', toString (limit rateLimitResult)),
                     (''X-RateLimit-Remaining'', toString (remaining rateLimitResult)),
                     (''X-RateLimit-Reset'', toString (resetTime rateLimitResult)),
                     (''Retry-After'',
                        toString \<lceil>real_of_int (resetTime rateLimitResult - t3) / 1000\<rceil>)],
               L')
            else
              (NextResponse_next [(''X-RateLimit-Limit'', toString (limit rateLimitResult)),
                     (''X-RateLimit-Remaining'', toString (remaining rateLimitResult)),
                     (''X-RateLimit-Reset'', toString (resetTime rateLimitResult))],
               L'))
      else if prefix ''/api'' (pathname request)
              \<and> \<not> prefix ''/api/public'' (pathname request) then
        (if \<not> isAllowedOrigin env request \<and> \<not> isAllowedReferer env request
         then (NextResponse_new ''Forbidden'' 403, L)
         else (NextResponse_next [], L))
      else (NextResponse_next [], L))"

section \<open>The price calculator (src/lib/priceCalculator.ts, src/config/stations.ts)\<close>

text \<open>
  JavaScript numbers are modelled as exact reals: the rounding of the double-precision
  product and sum is not part of the model.
\<close>

record Station =
  id' :: string
  name :: string
  system :: string
  systemId :: int

record Config =
  stations :: "Station list"
  priceMatrix :: "(string \<times> (string \<times> real) list) list"
  maxVolume :: real
  maxCollateral :: real
  collateralPercentage :: real
  defaultPickupStation :: string
  defaultDestinationStation :: string

text \<open>
  A row of the price matrix: the rates to the seven keys of the source, in its order.
\<close>

definition row ::
  "real \<Rightarrow> real \<Rightarrow> real \<Rightarrow> real \<Rightarrow> real \<Rightarrow> real \<Rightarrow> real \<Rightarrow> (string \<times> real) list" where
  "row a b c d e f g =
     [(''jita-iv-moon-4'', a), (''saminer'', b), (''t-nnjz'', c), (''z-xmuc'', d),
      (''o-fthe'', e), (''y-4u62'', f), (''37s-ko-vi'', g)]"

definition stationsConfig :: Config where
  "stationsConfig =
     \<lparr>stations =
        [\<lparr>id' = ''jita-iv-moon-4'', name = ''Jita IV - Moon 4 - Caldari Navy Assembly Plant'',
          system = ''Jita'', systemId = 30000142\<rparr>,
         \<lparr>id' = ''saminer'', name = ''Saminer - Stain is for Stain People'',
          system = ''Saminer'', systemId = 30001721\<rparr>,
         \<lparr>id' = ''t-nnjz'', name = ''T-NNJZ - meow meow'',
          system = ''T-NNJZ'', systemId = 30001959\<rparr>,
         \<lparr>id' = ''z-xmuc'', name = ''Z-XMUC - Ends of Invention'',
          system = ''Z-XMUC'', systemId = 30001929\<rparr>,
         \<lparr>id' = ''o-fthe'', name = ''O-FTHE - Good Sax Nightmare Dealership'',
          system = ''O-FTHE'', systemId = 30001938\<rparr>,
         \<lparr>id' = ''y-4u62'', name = ''Y-4U62 - Neural-Link Giga Factory'',
          system = ''Y-4U62'', systemId = 30001932\<rparr>,
         \<lparr>id' = ''37s-ko-vi-moon-14'',
          name = ''37S-KO VI - Moon 14 - True Creations Assembly Plant'',
          system = ''37S-KO'', systemId = 30001868\<rparr>],
      priceMatrix =
        [(''jita-iv-moon-4'', row 0 300 650 650 650 650 650),
         (''saminer'', row 300 0 650 650 650 650 650),
         (''t-nnjz'', row 650 650 650 650 650 650 650),
         (''z-xmuc'', row 650 650 650 650 650 650 650),
         (''o-fthe'', row 650 650 650 650 650 650 0),
         (''y-4u62'', row 650 650 650 650 650 650 650),
         (''37s-ko-vi'', row 650 650 650 650 650 650 650)],
      maxVolume = 345000,
      maxCollateral = 3000000000,
      collateralPercentage = 1 / 100,
      defaultPickupStation = ''jita-iv-moon-4'',
      defaultDestinationStation = ''y-4u62''\<rparr>"

record CalculatePriceRequest =
  pickupStationId :: string
  destinationStationId :: string
  volume :: real
  collateral :: real

record CalculatePriceResponse =
  basePrice :: real
  collateralFee :: real
  totalPrice :: real
  pickupStation :: string
  destinationStation :: string
  volume :: real
  collateral :: real

text \<open>
  The message of an error. The two range messages embed
  \<^verbatim>\<open>toLocaleString()\<close> of a bound, which depends on the locale of the host: they are
  kept as templates with the bound.
\<close>

datatype Message =
    Text string
  | VolumeMustBeBetween0And real
  | CollateralMustBeBetween0And real

text \<open>
  What a call can throw: the module's own error, or the \<^verbatim>\<open>TypeError\<close> of reading a
  property of \<^verbatim>\<open>undefined\<close>. \<open>calculatePrice\<close> asserts with \<^verbatim>\<open>as Station\<close> and
  \<^verbatim>\<open>!\<close> that its three lookups succeed; the last case of the model stands for a
  failed assertion, and \<open>calculatePrice_no_TypeError\<close> below shows that it never occurs.
\<close>

datatype Thrown = PriceCalculationError Message | TypeError

text \<open>
  \<^verbatim>\<open>stationsConfig.priceMatrix[from]?.[to]\<close>; \<open>None\<close> is \<^verbatim>\<open>undefined\<close>. The
  lookup is among the keys written in the configuration; the code makes it only after
  both ids have been found among the stations.
\<close>

definition routeRate :: "string \<Rightarrow> string \<Rightarrow> real option" where
  "routeRate from to =
     (case map_of (priceMatrix stationsConfig) from of
        None \<Rightarrow> None
      | Some r \<Rightarrow> map_of r to)"

definition findStation :: "string \<Rightarrow> Station option" where
  "findStation stationId = List.find (\<lambda>s. id' s = stationId) (stations stationsConfig)"

definition validateCalculationRequest :: "CalculatePriceRequest \<Rightarrow> Thrown + unit" where
  "validateCalculationRequest request =
     (if pickupStationId request = [] \<or> destinationStationId request = [] then
        Inl (PriceCalculationError (Text ''Pickup and destination stations are required''))
      else if CalculatePriceRequest.volume request \<le> 0
              \<or> CalculatePriceRequest.volume request > maxVolume stationsConfig then
        Inl (PriceCalculationError (VolumeMustBeBetween0And (maxVolume stationsConfig)))
      else if CalculatePriceRequest.collateral request < 0
              \<or> CalculatePriceRequest.collateral request > maxCollateral stationsConfig then
        Inl (PriceCalculationError (CollateralMustBeBetween0And (maxCollateral stationsConfig)))
      else if findStation (pickupStationId request) = None then
        Inl (PriceCalculationError (Text ''Invalid pickup station''))
      else if findStation (destinationStationId request) = None then
        Inl (PriceCalculationError (Text ''Invalid destination station''))
      else if routeRate (pickupStationId request) (destinationStationId request) = None then
        Inl (PriceCalculationError (Text ''Price route not available''))
      else Inr ())"

definition calculatePrice :: "CalculatePriceRequest \<Rightarrow> Thrown + CalculatePriceResponse" where
  "calculatePrice request =
     (case validateCalculationRequest request of
        Inl e \<Rightarrow> Inl e
      | Inr _ \<Rightarrow>
     (case (findStation (pickupStationId request),
            findStation (destinationStationId request),
            routeRate (pickupStationId request) (destinationStationId request)) of
        (Some pickup, Some destination, Some pricePerM3) \<Rightarrow>
          (let basePrice0 = pricePerM3 * CalculatePriceRequest.volume request;
               collateralFee0 =
                 CalculatePriceRequest.collateral request * collateralPercentage stationsConfig;
               totalPrice0 = basePrice0 + collateralFee0
           in Inr \<lparr>basePrice = basePrice0,
                   collateralFee = collateralFee0,
                   totalPrice = totalPrice0,
                   pickupStation = name pickup,
                   destinationStation = name destination,
                   volume = CalculatePriceRequest.volume request,
                   collateral = CalculatePriceRequest.collateral request\<rparr>)
      | _ \<Rightarrow> Inl TypeError))"

section \<open>The words of the claims\<close>

text \<open>
  The two conditions of the origin gate as the specification words them: the
  \<^verbatim>\<open>Origin\<close> header is an entry of the allow-list, and the \<^verbatim>\<open>Referer\<close> header
  starts with an entry of the allow-list.
\<close>

definition originMatches :: "Env \<Rightarrow> Request \<Rightarrow> bool" where
  "originMatches env request =
     (case headers request ''origin'' of
        None \<Rightarrow> False
      | Some origin \<Rightarrow> origin \<in> set (allowedOrigins env))"

definition refererMatches :: "Env \<Rightarrow> Request \<Rightarrow> bool" where
  "refererMatches env request =
     (case headers request ''referer'' of
        None \<Rightarrow> False
      | Some referer \<Rightarrow> list_ex (\<lambda>allowed. prefix allowed referer) (allowedOrigins env))"


text \<open>A volume and a collateral within the bounds of the configuration.\<close>

definition withinBounds :: "CalculatePriceRequest \<Rightarrow> bool" where
  "withinBounds request =
     (0 < CalculatePriceRequest.volume request \<and>
      CalculatePriceRequest.volume request \<le> maxVolume stationsConfig \<and>
      0 \<le> CalculatePriceRequest.collateral request \<and>
      CalculatePriceRequest.collateral request \<le> maxCollateral stationsConfig)"

section \<open>Example states, environments and requests\<close>

text \<open>
  The singleton after ten admitted requests of one address, at the milliseconds 0 to 9
  (\<open>exhausted_reachable\<close> below).
\<close>

definition exhausted :: RateLimiter where
  "exhausted =
     (rateLimiter 0)\<lparr>store := [''203.0.113.7'' \<mapsto>
        \<lparr>requests = [0, 1, 2, 3, 4, 5, 6, 7, 8, 9], lastCleanup = 0\<rparr>]\<rparr>"

definition ten_checks :: "Op list" where
  "ten_checks = map (\<lambda>t. Check t t ''203.0.113.7'') [0, 1, 2, 3, 4, 5, 6, 7, 8, 9]"

text \<open>Eleven checks of one address within a minute, and one of another address between them.\<close>

definition burst_ops :: "Op list" where
  "burst_ops = ten_checks @ [Check 10 10 ''198.51.100.2'', Check 59999 59999 ''203.0.113.7'']"

definition env0 :: Env where
  "env0 = \<lparr>NO_RATE_LIMIT_IPS = Some ''10.0.0.1, 10.0.0.2'',
           ALLOWED_ORIGINS = Some ''https://bslc.example.com,http://localhost:3000''\<rparr>"

text \<open>An allow-list written with a comma at its end: its last entry is the empty string.\<close>

definition env1 :: Env where
  "env1 = \<lparr>NO_RATE_LIMIT_IPS = None, ALLOWED_ORIGINS = Some ''https://bslc.example.com,''\<rparr>"

definition emptyOriginRequest :: Request where
  "emptyOriginRequest =
     \<lparr>pathname = ''/api/calculate-price'', headers = [''origin'' \<mapsto> '''']\<rparr>"

definition hotlinkRequest :: Request where
  "hotlinkRequest =
     \<lparr>pathname = ''/api/calculate-price'',
      headers = [''referer'' \<mapsto> ''https://evil.example.net/page'']\<rparr>"

definition siteRequest :: Request where
  "siteRequest =
     \<lparr>pathname = ''/api/calculate-price'',
      headers = [''origin'' \<mapsto> ''https://bslc.example.com'']\<rparr>"




definition moonRequest :: CalculatePriceRequest where
  "moonRequest =
     \<lparr>pickupStationId = ''jita-iv-moon-4'', destinationStationId = ''37s-ko-vi-moon-14'',
      volume = 1000, collateral = 1000000\<rparr>"

definition typoRequest :: CalculatePriceRequest where
  "typoRequest =
     \<lparr>pickupStationId = ''37s-ko-vi-moon-14'', destinationStationId = ''jita'',
      volume = 1000, collateral = 1000000\<rparr>"

section \<open>Invariants and measures of the limiter\<close>

text \<open>
  The state of a burst: \<open>k\<close> checks of \<open>i\<close> have been made, the entry holds the first
  \<open>min k maxRequests\<close> of them, and every timestamp is at or after the start of the window.
\<close>

definition burst :: "int \<Rightarrow> string \<Rightarrow> nat \<Rightarrow> RateLimiter \<Rightarrow> bool" where
  "burst T i k L =
     (length (requestsOf i L) = min k (nat (maxRequests L)) \<and>
      (\<forall>t \<in> set (requestsOf i L). T \<le> t))"

text \<open>No entry holds more than \<open>maxRequests\<close> timestamps.\<close>

definition capped :: "RateLimiter \<Rightarrow> bool" where
  "capped L = (\<forall>i. length (requestsOf i L) \<le> nat (maxRequests L))"

text \<open>The number of timestamps of \<open>i\<close> that are newer than \<open>x\<close>.\<close>

definition newer :: "int \<Rightarrow> string \<Rightarrow> RateLimiter \<Rightarrow> nat" where
  "newer x i L = length (filter (\<lambda>t. t > x) (requestsOf i L))"

text \<open>Every entry is in ascending order and holds nothing later than \<open>t\<close>.\<close>

definition ordered :: "int \<Rightarrow> RateLimiter \<Rightarrow> bool" where
  "ordered t L = (\<forall>i. sorted (requestsOf i L) \<and> (\<forall>x \<in> set (requestsOf i L). x \<le> t))"

section \<open>One call of the limiter\<close>

lemma cleanup_params [simp]:
  "windowMs (RateLimiter_cleanup t L) = windowMs L"
  "maxRequests (RateLimiter_cleanup t L) = maxRequests L"
  "cleanupInterval (RateLimiter_cleanup t L) = cleanupInterval L"
  by (simp_all add: RateLimiter_cleanup_def)

lemma requestsOf_cleanup:
  "requestsOf i (RateLimiter_cleanup t L) =
     (if t - lastGlobalCleanup L < cleanupInterval L then requestsOf i L
      else filter (\<lambda>x. t - x < windowMs L) (requestsOf i L))"
  by (auto simp: requestsOf_def RateLimiter_cleanup_def cleanup_entry_def Let_def
           split: option.splits)

lemma check_allowed:
  "allowed (fst (RateLimiter_checkRateLimit tc now i L)) =
     (int (length (survivors tc now i L)) < maxRequests L)"
  by (simp add: RateLimiter_checkRateLimit_def survivors_def windowFilter_def requestsOf_def
                Let_def split: option.splits)

lemma check_limit: "limit (fst (RateLimiter_checkRateLimit tc now i L)) = maxRequests L"
  by (simp add: RateLimiter_checkRateLimit_def Let_def)

lemma check_remaining:
  "remaining (fst (RateLimiter_checkRateLimit tc now i L)) =
     (if int (length (survivors tc now i L)) < maxRequests L
      then max 0 (maxRequests L - int (length (survivors tc now i L))) - 1
      else max 0 (maxRequests L - int (length (survivors tc now i L))))"
  by (simp add: RateLimiter_checkRateLimit_def survivors_def windowFilter_def requestsOf_def
                Let_def split: option.splits)

lemma check_requestsOf_same:
  "requestsOf i (snd (RateLimiter_checkRateLimit tc now i L)) =
     (if int (length (survivors tc now i L)) < maxRequests L
      then survivors tc now i L @ [now] else survivors tc now i L)"
  by (simp add: RateLimiter_checkRateLimit_def survivors_def windowFilter_def requestsOf_def
                Let_def split: option.splits)

lemma check_requestsOf_other:
  "j \<noteq> i \<Longrightarrow>
   requestsOf i (snd (RateLimiter_checkRateLimit tc now j L)) =
     requestsOf i (RateLimiter_cleanup tc L)"
  by (simp add: RateLimiter_checkRateLimit_def requestsOf_def Let_def)

lemma check_resetTime:
  "resetTime (fst (RateLimiter_checkRateLimit tc now i L)) =
     (case requestsOf i (snd (RateLimiter_checkRateLimit tc now i L)) of
        [] \<Rightarrow> now | first # _ \<Rightarrow> first) + windowMs L"
  by (simp add: RateLimiter_checkRateLimit_def requestsOf_def Let_def split: option.splits)

lemma check_params [simp]:
  "windowMs (snd (RateLimiter_checkRateLimit tc now i L)) = windowMs L"
  "maxRequests (snd (RateLimiter_checkRateLimit tc now i L)) = maxRequests L"
  "cleanupInterval (snd (RateLimiter_checkRateLimit tc now i L)) = cleanupInterval L"
  by (simp_all add: RateLimiter_checkRateLimit_def Let_def)

lemma reset_params [simp]:
  "windowMs (RateLimiter_reset j L) = windowMs L"
  "maxRequests (RateLimiter_reset j L) = maxRequests L"
  by (simp_all add: RateLimiter_reset_def)

lemma requestsOf_reset:
  "requestsOf i (RateLimiter_reset j L) = (if j = i then [] else requestsOf i L)"
  by (simp add: requestsOf_def RateLimiter_reset_def)

lemma apply_op_params [simp]:
  "windowMs (apply_op op L) = windowMs L"
  "maxRequests (apply_op op L) = maxRequests L"
  by (cases op; simp)+

lemma exec_params [simp]:
  "windowMs (exec ops L) = windowMs L"
  "maxRequests (exec ops L) = maxRequests L"
  by (induction ops arbitrary: L; simp)+

subsection \<open>The window filter and the cleanup only drop timestamps\<close>

lemma length_filter_filter: "length (filter P (filter Q xs)) \<le> length (filter P xs)"
  by (induction xs) auto

lemma filter_same_length: "length (filter P xs) = length xs \<Longrightarrow> filter P xs = xs"
proof (rule ccontr)
  assume l: "length (filter P xs) = length xs" and n: "filter P xs \<noteq> xs"
  then obtain x where "x \<in> set xs" "\<not> P x"
    by (auto simp: filter_id_conv)
  then have "length (filter P xs) < length xs"
    by (rule length_filter_less)
  then show False using l by simp
qed

lemma length_survivors: "length (survivors tc now i L) \<le> length (requestsOf i L)"
  by (simp add: survivors_def windowFilter_def requestsOf_cleanup le_trans[OF length_filter_le])

lemma length_cleanup: "length (requestsOf i (RateLimiter_cleanup tc L)) \<le> length (requestsOf i L)"
  by (simp add: requestsOf_cleanup)


lemma windowFilter_between:
  "length (survivors tc now i L) \<le> length (windowFilter now (windowMs L) (requestsOf i L))"
  using length_filter_filter[of "\<lambda>t. t > now - windowMs L" "\<lambda>x. tc - x < windowMs L" "requestsOf i L"]
  by (simp add: survivors_def windowFilter_def requestsOf_cleanup del: filter_filter)

text \<open>
  When the clock does not run backwards between the two readings of a call, the cleanup
  drops nothing that the window filter would keep.
\<close>

lemma survivors_chronological:
  "tc \<le> now \<Longrightarrow> survivors tc now i L = windowFilter now (windowMs L) (requestsOf i L)"
  by (auto simp: survivors_def windowFilter_def requestsOf_cleanup intro!: filter_cong)

subsection \<open>The example state\<close>

lemma exhausted_survivors:
  "survivors 30000 30000 ''203.0.113.7'' exhausted = [0, 1, 2, 3, 4, 5, 6, 7, 8, 9]"
  by (simp add: survivors_def windowFilter_def requestsOf_def RateLimiter_cleanup_def exhausted_def
     rateLimiter_def RateLimiter_new_def)

lemma exhausted_reachable: "exhausted = exec ten_checks (RateLimiter_new 0 60000 10)"
  by (simp add: exhausted_def ten_checks_def rateLimiter_def RateLimiter_new_def
                RateLimiter_checkRateLimit_def RateLimiter_cleanup_def Let_def)


lemma allowedOrigins_env0:
  "allowedOrigins env0 = [''https://bslc.example.com'', ''http://localhost:3000'']"
  by (simp add: allowedOrigins_def env0_def split_def)

lemma allowedOrigins_env1: "allowedOrigins env1 = [''https://bslc.example.com'', '''']"
  by (simp add: allowedOrigins_def env1_def split_def)



section \<open>Invariants of the limiter\<close>

subsection \<open>No entry ever holds more than \<open>maxRequests\<close> timestamps\<close>

lemma capped_apply_op:
  assumes "capped L"
  shows "capped (apply_op op L)"
proof (cases op)
  case (Reset j)
  then show ?thesis using assms by (simp add: capped_def requestsOf_reset)
next
  case (Check tc now j)
  have "length (requestsOf i (snd (RateLimiter_checkRateLimit tc now j L))) \<le> nat (maxRequests L)"
    for i
  proof (cases "i = j")
    case True
    then show ?thesis
      using assms length_survivors[of tc now j L]
      by (auto simp: check_requestsOf_same capped_def intro: le_trans)
  next
    case False
    then show ?thesis
      using assms length_cleanup[of i tc L]
      by (auto simp: check_requestsOf_other capped_def intro: le_trans)
  qed
  then show ?thesis using Check by (simp add: capped_def)
qed

lemma capped_exec: "capped L \<Longrightarrow> capped (exec ops L)"
  by (induction ops arbitrary: L) (simp_all add: capped_apply_op)

lemma capped_new: "capped (RateLimiter_new t0 w m)"
  by (simp add: capped_def requestsOf_def RateLimiter_new_def)

text \<open>So a rejected call finds the entry full, and neither filter drops anything.\<close>

lemma rejected_capped_keeps_all:
  assumes "capped L" "\<not> allowed (fst (RateLimiter_checkRateLimit tc now i L))"
  shows "survivors tc now i L = requestsOf i L"
    and "windowFilter now (windowMs L) (requestsOf i L) = requestsOf i L"
proof -
  have le: "length (requestsOf i L) \<le> nat (maxRequests L)"
    using assms(1) by (simp add: capped_def)
  have ge: "maxRequests L \<le> int (length (survivors tc now i L))"
    using assms(2) by (simp add: check_allowed)
  have "length (windowFilter now (windowMs L) (requestsOf i L)) \<le> length (requestsOf i L)"
    by (simp add: windowFilter_def)
  then have w: "length (windowFilter now (windowMs L) (requestsOf i L)) = length (requestsOf i L)"
    using le ge windowFilter_between[of tc now i L] by linarith
  then show f: "windowFilter now (windowMs L) (requestsOf i L) = requestsOf i L"
    unfolding windowFilter_def by (rule filter_same_length)
  have "length (survivors tc now i L) \<le> length (requestsOf i (RateLimiter_cleanup tc L))"
    by (simp add: survivors_def windowFilter_def)
  then have c: "length (requestsOf i (RateLimiter_cleanup tc L)) = length (requestsOf i L)"
    using le ge length_cleanup[of i tc L] by linarith
  have "requestsOf i (RateLimiter_cleanup tc L) = requestsOf i L"
    using c filter_same_length[of "\<lambda>x. tc - x < windowMs L" "requestsOf i L"]
    by (simp add: requestsOf_cleanup split: if_splits)
  then show "survivors tc now i L = requestsOf i L"
    using f by (simp add: survivors_def)
qed

subsection \<open>Operations of other identifiers never add a timestamp\<close>

lemma newer_cleanup: "newer x i (RateLimiter_cleanup tc L) \<le> newer x i L"
  unfolding newer_def requestsOf_cleanup
  using length_filter_filter[of "\<lambda>t. t > x" "\<lambda>t. tc - t < windowMs L" "requestsOf i L"]
  by (simp del: filter_filter)

lemma newer_apply_op:
  assumes "notCheckOf i op"
  shows "newer x i (apply_op op L) \<le> newer x i L"
proof (cases op)
  case (Reset j)
  then show ?thesis by (simp add: newer_def requestsOf_reset)
next
  case (Check tc now j)
  then have "requestsOf i (apply_op op L) = requestsOf i (RateLimiter_cleanup tc L)"
    using assms by (simp add: check_requestsOf_other)
  then show ?thesis
    using newer_cleanup[of x i tc L] by (simp add: newer_def)
qed

lemma newer_exec:
  "list_all (notCheckOf i) ops \<Longrightarrow> newer x i (exec ops L) \<le> newer x i L"
proof (induction ops arbitrary: L)
  case Nil
  then show ?case by simp
next
  case (Cons op ops)
  then show ?case
    using newer_apply_op[of i op x L] by (auto intro: le_trans)
qed

lemma length_survivors_newer:
  "length (survivors tc now i L) \<le> newer (now - windowMs L) i L"
  using newer_cleanup[of "now - windowMs L" i tc L]
  by (simp add: survivors_def windowFilter_def newer_def)

subsection \<open>Under a clock that never runs backwards the timestamps are in order\<close>




lemma ordered_mono: "ordered t L \<Longrightarrow> t \<le> t' \<Longrightarrow> ordered t' L"
  by (force simp: ordered_def)

lemma ordered_cleanup: "ordered t L \<Longrightarrow> ordered t (RateLimiter_cleanup tc L)"
  by (auto simp: ordered_def requestsOf_cleanup sorted_wrt_filter)





section \<open>The claims about the limiter\<close>

subsection \<open>A burst within one window\<close>

text \<open>Inside the window nothing is dropped, by the cleanup or by the window filter.\<close>

lemma cleanup_keeps_window:
  assumes "\<forall>t \<in> set (requestsOf i L). T \<le> t" "tc < T + windowMs L"
  shows "requestsOf i (RateLimiter_cleanup tc L) = requestsOf i L"
proof -
  have "filter (\<lambda>x. tc - x < windowMs L) (requestsOf i L) = requestsOf i L"
    using assms by (intro filter_True) auto
  then show ?thesis by (simp add: requestsOf_cleanup)
qed

lemma survivors_keeps_window:
  assumes "\<forall>t \<in> set (requestsOf i L). T \<le> t" "tc < T + windowMs L" "now < T + windowMs L"
  shows "survivors tc now i L = requestsOf i L"
proof -
  have "filter (\<lambda>x. x > now - windowMs L) (requestsOf i L) = requestsOf i L"
    using assms by (intro filter_True) auto
  then show ?thesis
    using assms by (simp add: survivors_def windowFilter_def cleanup_keeps_window)
qed

lemma burst_step:
  assumes "burst T i k L" "withinWindow T (windowMs L) i op"
  shows "burst T i (k + length (resultsFor i [op] L)) (apply_op op L)"
proof (cases op)
  case (Check tc now j)
  show ?thesis
  proof (cases "j = i")
    case True
    have s: "survivors tc now i L = requestsOf i L"
      using assms Check by (intro survivors_keeps_window[where T = T]) (auto simp: burst_def)
    show ?thesis
      using assms Check True
      by (auto simp: burst_def check_requestsOf_same s)
  next
    case False
    have "requestsOf i (RateLimiter_cleanup tc L) = requestsOf i L"
      using assms Check by (intro cleanup_keeps_window[where T = T]) (auto simp: burst_def)
    then show ?thesis
      using assms Check False by (simp add: burst_def check_requestsOf_other)
  qed
next
  case (Reset j)
  then show ?thesis using assms by (simp add: burst_def requestsOf_reset)
qed

lemma burst_result:
  assumes "burst T i k L" "withinWindow T (windowMs L) i (Check tc now i)"
  shows "allowed (fst (RateLimiter_checkRateLimit tc now i L)) = (int k < maxRequests L)"
    and "remaining (fst (RateLimiter_checkRateLimit tc now i L)) = max 0 (maxRequests L - 1 - int k)"
proof -
  have s: "survivors tc now i L = requestsOf i L"
    using assms by (intro survivors_keeps_window[where T = T]) (auto simp: burst_def)
  show "allowed (fst (RateLimiter_checkRateLimit tc now i L)) = (int k < maxRequests L)"
    using assms by (auto simp: check_allowed s burst_def)
  show "remaining (fst (RateLimiter_checkRateLimit tc now i L)) = max 0 (maxRequests L - 1 - int k)"
    using assms by (auto simp: check_remaining s burst_def)
qed

lemma burst_results:
  assumes "list_all (withinWindow T (windowMs L) i) ops" "burst T i k L"
    "n < length (resultsFor i ops L)"
  shows "allowed (resultsFor i ops L ! n) = (int (k + n) < maxRequests L) \<and>
         remaining (resultsFor i ops L ! n) = max 0 (maxRequests L - 1 - int (k + n))"
  using assms
proof (induction ops arbitrary: L k n)
  case Nil
  then show ?case by simp
next
  case (Cons op ops)
  have step: "burst T i (k + length (resultsFor i [op] L)) (apply_op op L)"
    using Cons.prems by (intro burst_step) auto
  have rest: "list_all (withinWindow T (windowMs (apply_op op L)) i) ops"
    using Cons.prems by simp
  show ?case
  proof (cases op)
    case (Reset j)
    then show ?thesis
      using Cons.IH[OF rest step, of n] Cons.prems by simp
  next
    case (Check tc now j)
    show ?thesis
    proof (cases "j = i")
      case False
      then show ?thesis
        using Cons.IH[OF rest step, of n] Cons.prems Check by simp
    next
      case True
      show ?thesis
      proof (cases n)
        case 0
        then show ?thesis
          using burst_result[of T i k L tc now] Cons.prems Check True by simp
      next
        case (Suc m)
        then show ?thesis
          using Cons.IH[OF rest step, of m] Cons.prems Check True by simp
      qed
    qed
  qed
qed

lemma burst_fresh: "store L i = None \<Longrightarrow> burst T i 0 L"
  by (simp add: burst_def requestsOf_def)

lemma length_resultsFor:
  "length (resultsFor i ops L) = length (filter (\<lambda>op. \<not> notCheckOf i op) ops)"
proof (induction ops arbitrary: L)
  case Nil
  then show ?case by simp
next
  case (Cons op ops)
  then show ?case by (cases op) simp_all
qed

text \<open>
  C1. Take an identifier with no entry in the store, and a sequence of operations whose
  clock readings all lie within one interval of \<open>windowMs\<close> milliseconds and that holds
  exactly \<open>maxRequests + 1\<close> checks of the identifier (checks and resets of other
  identifiers may stand between them). Then the first \<open>maxRequests\<close> checks of the
  identifier are allowed, their \<open>remaining\<close> goes down one by one from
  \<open>maxRequests - 1\<close> to \<open>0\<close>, and the last check is rejected.
\<close>

theorem C1_burst:
  assumes "store L i = None"
    and "list_all (withinWindow T (windowMs L) i) ops"
    and "length (resultsFor i ops L) = nat (maxRequests L) + 1"
  shows "map allowed (resultsFor i ops L) = replicate (nat (maxRequests L)) True @ [False] \<and>
         map remaining (take (nat (maxRequests L)) (resultsFor i ops L)) =
           rev (map int [0..<nat (maxRequests L)])"
proof
  have r: "allowed (resultsFor i ops L ! n) = (int n < maxRequests L) \<and>
           remaining (resultsFor i ops L ! n) = max 0 (maxRequests L - 1 - int n)"
    if "n < length (resultsFor i ops L)" for n
    using burst_results[OF assms(2) burst_fresh[OF assms(1)] that] by simp
  show "map allowed (resultsFor i ops L) = replicate (nat (maxRequests L)) True @ [False]"
    using assms(3) r by (intro nth_equalityI) (auto simp: nth_append)
  show "map remaining (take (nat (maxRequests L)) (resultsFor i ops L)) =
           rev (map int [0..<nat (maxRequests L)])"
    using assms(3) r by (intro nth_equalityI) (auto simp: rev_nth)
qed

text \<open>
  C1 on a run: ten checks of one address at the milliseconds 0 to 9, a check of another
  address, and an eleventh check of the first address at 59999, on the fresh singleton.
\<close>

theorem C1_witness:
  "store (rateLimiter 0) ''203.0.113.7'' = None \<and>
   list_all (withinWindow 0 (windowMs (rateLimiter 0)) ''203.0.113.7'') burst_ops \<and>
   map allowed (resultsFor ''203.0.113.7'' burst_ops (rateLimiter 0)) =
     [True, True, True, True, True, True, True, True, True, True, False] \<and>
   map remaining (take 10 (resultsFor ''203.0.113.7'' burst_ops (rateLimiter 0))) =
     [9, 8, 7, 6, 5, 4, 3, 2, 1, 0]"
proof -
  have a: "store (rateLimiter 0) ''203.0.113.7'' = None"
    by (simp add: rateLimiter_def RateLimiter_new_def)
  have b: "list_all (withinWindow 0 (windowMs (rateLimiter 0)) ''203.0.113.7'') burst_ops"
    by (simp add: burst_ops_def ten_checks_def rateLimiter_def RateLimiter_new_def)
  have c: "length (resultsFor ''203.0.113.7'' burst_ops (rateLimiter 0))
             = nat (maxRequests (rateLimiter 0)) + 1"
    by (simp add: length_resultsFor burst_ops_def ten_checks_def rateLimiter_def RateLimiter_new_def)
  have m: "nat (maxRequests (rateLimiter 0)) = 10"
    by (simp add: rateLimiter_def RateLimiter_new_def)
  have u: "rev (map int [0..<10]) = [9, 8, 7, 6, 5, 4, 3, 2, 1, 0]"
    by (simp add: upt_rec)
  have v: "replicate 10 True = [True, True, True, True, True, True, True, True, True, True]"
    by (simp add: numeral_eq_Suc)
  show ?thesis
    using C1_burst [OF a b c] a b unfolding m u v by simp
qed

subsection \<open>The fields of one result\<close>

lemma remaining_of_result:
  "0 \<le> remaining (fst (RateLimiter_checkRateLimit tc now i L)) \<and>
   (allowed (fst (RateLimiter_checkRateLimit tc now i L)) \<longrightarrow>
      remaining (fst (RateLimiter_checkRateLimit tc now i L))
        \<le> limit (fst (RateLimiter_checkRateLimit tc now i L)) - 1)"
  by (simp add: check_allowed check_limit check_remaining)

lemma remaining_of_results:
  "r \<in> set (resultsFor i ops L) \<Longrightarrow>
   0 \<le> remaining r \<and> (allowed r \<longrightarrow> remaining r \<le> limit r - 1)"
proof (induction ops arbitrary: L)
  case Nil
  then show ?case by simp
next
  case (Cons op ops)
  show ?case
  proof (cases op)
    case (Reset j)
    then show ?thesis using Cons by simp
  next
    case (Check tc now j)
    then consider "j = i" "r = fst (RateLimiter_checkRateLimit tc now i L)"
      | "r \<in> set (resultsFor i ops (apply_op op L))"
      using Cons.prems by (auto split: if_splits)
    then show ?thesis
    proof cases
      case 1
      then show ?thesis using remaining_of_result[of tc now i L] by simp
    next
      case 2
      then show ?thesis by (rule Cons.IH)
    qed
  qed
qed

text \<open>
  C4. In every state of the limiter, so after every sequence of calls, and for every
  identifier, the \<open>remaining\<close> field of the result of \<open>checkRateLimit\<close> is never
  negative; for a rejected call it is \<open>max 0 (limit - count)\<close>, where \<open>count\<close> is the
  number of timestamps that survive the window filter; and after an allowed call it is at
  most \<open>limit - 1\<close>. The two bounds hold for every result that the checks of the
  identifier return in any sequence of operations.
\<close>

theorem C4_remaining_bounds:
  "0 \<le> remaining (fst (RateLimiter_checkRateLimit tc now i L)) \<and>
   (\<not> allowed (fst (RateLimiter_checkRateLimit tc now i L)) \<longrightarrow>
      remaining (fst (RateLimiter_checkRateLimit tc now i L)) =
        max 0 (limit (fst (RateLimiter_checkRateLimit tc now i L))
               - int (length (survivors tc now i L)))) \<and>
   (allowed (fst (RateLimiter_checkRateLimit tc now i L)) \<longrightarrow>
      remaining (fst (RateLimiter_checkRateLimit tc now i L))
        \<le> limit (fst (RateLimiter_checkRateLimit tc now i L)) - 1) \<and>
   (\<forall>r \<in> set (resultsFor i ops L).
      0 \<le> remaining r \<and> (allowed r \<longrightarrow> remaining r \<le> limit r - 1))"
proof (intro conjI impI ballI)
  let ?r = "fst (RateLimiter_checkRateLimit tc now i L)"
  let ?count = "int (length (survivors tc now i L))"
  show "0 \<le> remaining ?r"
  proof (cases "allowed ?r")
    case True
    then have "?count < maxRequests L" by (simp add: check_allowed)
    then show ?thesis by (simp add: check_remaining)
  next
    case False
    then show ?thesis by (simp add: check_remaining check_allowed)
  qed
  show "remaining ?r = max 0 (limit ?r - ?count)" if "\<not> allowed ?r"
    using that by (simp add: check_remaining check_allowed check_limit)
  show "remaining ?r \<le> limit ?r - 1" if "allowed ?r"
    using that by (simp add: check_remaining check_allowed check_limit)
  show "0 \<le> remaining r" if "r \<in> set (resultsFor i ops L)" for r
    using remaining_of_results[OF that] by simp
  show "remaining r \<le> limit r - 1" if "r \<in> set (resultsFor i ops L)" "allowed r" for r
    using remaining_of_results[OF that(1)] that(2) by simp
qed

text \<open>
  C4 on two calls: the first request of an address on the fresh singleton, which is allowed
  with nine remaining, and a request of the address of the example state, which is
  rejected with none remaining.
\<close>

theorem C4_witness:
  "allowed (fst (RateLimiter_checkRateLimit 5 5 ''203.0.113.7'' (rateLimiter 0))) \<and>
   remaining (fst (RateLimiter_checkRateLimit 5 5 ''203.0.113.7'' (rateLimiter 0))) = 9 \<and>
   resultsFor ''203.0.113.7'' [Check 5 5 ''203.0.113.7''] (rateLimiter 0) =
     [fst (RateLimiter_checkRateLimit 5 5 ''203.0.113.7'' (rateLimiter 0))] \<and>
   \<not> allowed (fst (RateLimiter_checkRateLimit 30000 30000 ''203.0.113.7'' exhausted)) \<and>
   remaining (fst (RateLimiter_checkRateLimit 30000 30000 ''203.0.113.7'' exhausted)) = 0"
  using C4_remaining_bounds [of 5 5 "''203.0.113.7''" "rateLimiter 0"
                                "[Check 5 5 ''203.0.113.7'']"]
        C4_remaining_bounds [of 30000 30000 "''203.0.113.7''" exhausted "[]"]
  by (simp add: check_allowed check_remaining check_limit exhausted_survivors)
     (simp add: survivors_def windowFilter_def requestsOf_def RateLimiter_cleanup_def
                rateLimiter_def RateLimiter_new_def exhausted_def)



subsection \<open>After the reset time\<close>

text \<open>
  C6. Take a limiter with a quota of at least one request (the singleton has ten) in any
  state it can reach from its construction, and a check of an identifier that is rejected
  there. After any operations that are not checks of that identifier, a check of it at a
  time strictly greater than the \<open>resetTime\<close> of the rejected call is allowed, whatever
  the other clock readings are.
\<close>

theorem C6_allowed_after_resetTime:
  assumes reach: "L = exec history (RateLimiter_new t0 w m)"
    and quota: "1 \<le> m"
    and rejected: "\<not> allowed (fst (RateLimiter_checkRateLimit tc now i L))"
    and between: "list_all (notCheckOf i) between"
    and later: "resetTime (fst (RateLimiter_checkRateLimit tc now i L)) < now'"
  shows "allowed (fst (RateLimiter_checkRateLimit tc' now' i
           (exec between (snd (RateLimiter_checkRateLimit tc now i L)))))"
proof -
  let ?L1 = "snd (RateLimiter_checkRateLimit tc now i L)"
  let ?s = "survivors tc now i L"
  have m: "maxRequests L = m" "windowMs L = w"
    using reach by (simp_all add: RateLimiter_new_def)
  have "capped L"
    using reach by (simp add: capped_exec capped_new)
  then have "length ?s \<le> nat m"
    using length_survivors[of tc now i L] m by (auto simp: capped_def intro: le_trans)
  moreover have "m \<le> int (length ?s)"
    using rejected m by (simp add: check_allowed)
  ultimately have len: "length ?s = nat m" by linarith
  then obtain first rest where s: "?s = first # rest"
    using quota by (cases ?s) auto
  have after: "requestsOf i ?L1 = ?s"
    using rejected by (simp add: check_requestsOf_same check_allowed)
  have "resetTime (fst (RateLimiter_checkRateLimit tc now i L)) = first + w"
    using after s m by (simp add: check_resetTime)
  then have old: "\<not> first > now' - w" using later by simp
  have "newer (now' - w) i ?L1 < length ?s"
    unfolding newer_def after using old s by (intro length_filter_less[of first]) auto
  then have "newer (now' - w) i (exec between ?L1) < nat m"
    using newer_exec[OF between, of "now' - w" ?L1] len by linarith
  then have "length (survivors tc' now' i (exec between ?L1)) < nat m"
    using length_survivors_newer[of tc' now' i "exec between ?L1"] m by simp
  then show ?thesis
    using m by (simp add: check_allowed)
qed

text \<open>
  C6 on a run: the example state, reached by ten checks, rejects the address at 30000 with
  the reset time 60000; after a check of another address, the address is allowed at 60001.
\<close>

theorem C6_witness:
  "exhausted = exec ten_checks (RateLimiter_new 0 60000 10) \<and>
   \<not> allowed (fst (RateLimiter_checkRateLimit 30000 30000 ''203.0.113.7'' exhausted)) \<and>
   resetTime (fst (RateLimiter_checkRateLimit 30000 30000 ''203.0.113.7'' exhausted)) = 60000 \<and>
   allowed (fst (RateLimiter_checkRateLimit 60001 60001 ''203.0.113.7''
     (exec [Check 40000 40000 ''198.51.100.2'']
        (snd (RateLimiter_checkRateLimit 30000 30000 ''203.0.113.7'' exhausted)))))"
proof -
  have rej: "\<not> allowed (fst (RateLimiter_checkRateLimit 30000 30000 ''203.0.113.7'' exhausted))"
    by (simp add: check_allowed exhausted_survivors)
       (simp add: exhausted_def rateLimiter_def RateLimiter_new_def)
  have rt: "resetTime (fst (RateLimiter_checkRateLimit 30000 30000 ''203.0.113.7'' exhausted)) = 60000"
    by (simp add: check_resetTime check_requestsOf_same exhausted_survivors)
       (simp add: exhausted_def rateLimiter_def RateLimiter_new_def)
  have btw: "list_all (notCheckOf ''203.0.113.7'') [Check 40000 40000 ''198.51.100.2'']"
    by simp
  have later: "resetTime (fst (RateLimiter_checkRateLimit 30000 30000 ''203.0.113.7'' exhausted))
                 < 60001"
    by (simp add: rt)
  show ?thesis
    using C6_allowed_after_resetTime [OF exhausted_reachable _ rej btw later, of 60001]
          exhausted_reachable rej rt
    by simp
qed

subsection \<open>A rejected call records nothing\<close>

text \<open>
  C7. After a call of \<open>checkRateLimit\<close> that returns \<open>allowed = False\<close>, the entry of
  the identifier exists and holds exactly the timestamps that survived the window filter
  of the call, and no new one. These are the timestamps stored before the call that pass
  the window filter, in the same order, in every state that the limiter can reach from
  its construction, and in any state at all when the clock did not run backwards between
  the cleanup and the check.
\<close>

theorem C7_rejected_not_recorded:
  assumes "\<not> allowed (fst (RateLimiter_checkRateLimit tc now i L))"
  shows "requestsOf i (snd (RateLimiter_checkRateLimit tc now i L)) = survivors tc now i L \<and>
         store (snd (RateLimiter_checkRateLimit tc now i L)) i \<noteq> None \<and>
         (tc \<le> now \<longrightarrow>
            requestsOf i (snd (RateLimiter_checkRateLimit tc now i L)) =
              windowFilter now (windowMs L) (requestsOf i L)) \<and>
         (L = exec history (RateLimiter_new t0 w m) \<longrightarrow>
            requestsOf i (snd (RateLimiter_checkRateLimit tc now i L)) =
              windowFilter now (windowMs L) (requestsOf i L))"
proof (intro conjI impI)
  show a: "requestsOf i (snd (RateLimiter_checkRateLimit tc now i L)) = survivors tc now i L"
    using assms by (simp add: check_requestsOf_same check_allowed)
  show "store (snd (RateLimiter_checkRateLimit tc now i L)) i \<noteq> None"
    by (simp add: RateLimiter_checkRateLimit_def Let_def)
  show "requestsOf i (snd (RateLimiter_checkRateLimit tc now i L)) =
          windowFilter now (windowMs L) (requestsOf i L)" if "tc \<le> now"
    using a that by (simp add: survivors_chronological)
  show "requestsOf i (snd (RateLimiter_checkRateLimit tc now i L)) =
          windowFilter now (windowMs L) (requestsOf i L)"
    if "L = exec history (RateLimiter_new t0 w m)"
  proof -
    have "capped L" using that by (simp add: capped_exec capped_new)
    then show ?thesis
      using a rejected_capped_keeps_all[OF _ assms] by simp
  qed
qed

text \<open>
  C7 on a call: the example state rejects the address at 30000, and its ten timestamps are
  what the entry holds afterwards.
\<close>

theorem C7_witness:
  "\<not> allowed (fst (RateLimiter_checkRateLimit 30000 30000 ''203.0.113.7'' exhausted)) \<and>
   exhausted = exec ten_checks (RateLimiter_new 0 60000 10) \<and>
   windowFilter 30000 (windowMs exhausted) (requestsOf ''203.0.113.7'' exhausted)
     = [0, 1, 2, 3, 4, 5, 6, 7, 8, 9] \<and>
   requestsOf ''203.0.113.7'' (snd (RateLimiter_checkRateLimit 30000 30000 ''203.0.113.7'' exhausted))
     = [0, 1, 2, 3, 4, 5, 6, 7, 8, 9]"
proof -
  have r: "\<not> allowed (fst (RateLimiter_checkRateLimit 30000 30000 ''203.0.113.7'' exhausted))"
    by (simp add: check_allowed exhausted_survivors)
       (simp add: exhausted_def rateLimiter_def RateLimiter_new_def)
  have w: "windowFilter 30000 (windowMs exhausted) (requestsOf ''203.0.113.7'' exhausted)
             = [0, 1, 2, 3, 4, 5, 6, 7, 8, 9]"
    by (simp add: windowFilter_def requestsOf_def exhausted_def rateLimiter_def
                  RateLimiter_new_def)
  have f: "requestsOf ''203.0.113.7''
             (snd (RateLimiter_checkRateLimit 30000 30000 ''203.0.113.7'' exhausted)) =
           windowFilter 30000 (windowMs exhausted) (requestsOf ''203.0.113.7'' exhausted)"
    using C7_rejected_not_recorded [OF r, of ten_checks 0 60000 10] exhausted_reachable
    by blast
  show ?thesis
    by (intro conjI) (rule r, rule exhausted_reachable, rule w, simp only: f w)
qed

section \<open>The claims about the exported functions and the middleware\<close>



subsection \<open>The Retry-After header\<close>













subsection \<open>The origin gate\<close>

lemma isAllowedOrigin_iff:
  "isAllowedOrigin env request =
     (headers request ''origin'' \<noteq> Some [] \<and> originMatches env request)"
  by (auto simp: isAllowedOrigin_def originMatches_def truthy_def split: option.splits)

lemma isAllowedReferer_iff:
  "isAllowedReferer env request =
     (headers request ''referer'' \<noteq> Some [] \<and> refererMatches env request)"
  by (auto simp: isAllowedReferer_def refererMatches_def truthy_def split: option.splits)

lemma middleware_internal:
  assumes "prefix ''/api'' (pathname request)" "\<not> prefix ''/api/public'' (pathname request)"
  shows "middleware env t1 t2 t3 request L =
           (if \<not> isAllowedOrigin env request \<and> \<not> isAllowedReferer env request
            then (NextResponse_new ''Forbidden'' 403, L) else (NextResponse_next [], L))"
  using assms by (simp add: middleware_def)

text \<open>
  C8, as the code has it. For every request to a path that starts with \<^verbatim>\<open>/api\<close> and
  not with \<^verbatim>\<open>/api/public\<close>, the middleware returns the bare response
  \<^verbatim>\<open>Forbidden\<close> with status 403 if and only if neither a non-empty \<^verbatim>\<open>Origin\<close>
  header is an entry of the allow-list nor a non-empty \<^verbatim>\<open>Referer\<close> header starts with
  an entry of the allow-list; otherwise it passes the request on. The limiter is not
  touched. In particular a request with no \<^verbatim>\<open>Origin\<close> header and a \<^verbatim>\<open>Referer\<close> that
  starts with no entry gets 403 (the request of the model has no body: the middleware
  never reads it). When the allow-list has no empty entry the words "non-empty" can be
  left out.
\<close>

theorem C8_forbidden_iff:
  assumes "prefix ''/api'' (pathname request)" "\<not> prefix ''/api/public'' (pathname request)"
  shows "(fst (middleware env t1 t2 t3 request L) = NextResponse_new ''Forbidden'' 403) =
           (\<not> (headers request ''origin'' \<noteq> Some [] \<and> originMatches env request) \<and>
            \<not> (headers request ''referer'' \<noteq> Some [] \<and> refererMatches env request)) \<and>
         (fst (middleware env t1 t2 t3 request L) \<noteq> NextResponse_new ''Forbidden'' 403 \<longrightarrow>
            fst (middleware env t1 t2 t3 request L) = NextResponse_next []) \<and>
         snd (middleware env t1 t2 t3 request L) = L \<and>
         (headers request ''origin'' = None \<and> \<not> refererMatches env request \<longrightarrow>
            fst (middleware env t1 t2 t3 request L) = NextResponse_new ''Forbidden'' 403) \<and>
         ([] \<notin> set (allowedOrigins env) \<longrightarrow>
            (fst (middleware env t1 t2 t3 request L) = NextResponse_new ''Forbidden'' 403) =
              (\<not> originMatches env request \<and> \<not> refererMatches env request))"
proof -
  have e: "[] \<notin> set (allowedOrigins env) \<Longrightarrow>
           (headers request ''origin'' \<noteq> Some [] \<and> originMatches env request) =
             originMatches env request"
    by (auto simp: originMatches_def split: option.splits)
  have r: "[] \<notin> set (allowedOrigins env) \<Longrightarrow>
           (headers request ''referer'' \<noteq> Some [] \<and> refererMatches env request) =
             refererMatches env request"
    by (auto simp: refererMatches_def list_ex_iff split: option.splits)
  have o: "headers request ''origin'' = None \<Longrightarrow> \<not> originMatches env request"
    by (simp add: originMatches_def)
  show ?thesis
    using e r o
    by (auto simp: middleware_internal[OF assms] isAllowedOrigin_iff isAllowedReferer_iff)
qed

text \<open>
  C8 on two requests to an internal path: one with no \<^verbatim>\<open>Origin\<close> and a foreign
  \<^verbatim>\<open>Referer\<close>, which gets 403, and one with an allow-listed \<^verbatim>\<open>Origin\<close>, which is
  passed on.
\<close>

theorem C8_witness:
  "prefix ''/api'' (pathname hotlinkRequest) \<and>
   \<not> prefix ''/api/public'' (pathname hotlinkRequest) \<and>
   headers hotlinkRequest ''origin'' = None \<and>
   \<not> refererMatches env0 hotlinkRequest \<and>
   [] \<notin> set (allowedOrigins env0) \<and>
   fst (middleware env0 0 0 0 hotlinkRequest (rateLimiter 0)) = NextResponse_new ''Forbidden'' 403 \<and>
   prefix ''/api'' (pathname siteRequest) \<and>
   \<not> prefix ''/api/public'' (pathname siteRequest) \<and>
   originMatches env0 siteRequest \<and>
   fst (middleware env0 0 0 0 siteRequest (rateLimiter 0)) = NextResponse_next []"
proof -
  have a: "prefix ''/api'' (pathname hotlinkRequest)"
    and b: "\<not> prefix ''/api/public'' (pathname hotlinkRequest)"
    by (simp_all add: hotlinkRequest_def)
  have c: "headers hotlinkRequest ''origin'' = None"
    by (simp add: hotlinkRequest_def)
  have d: "\<not> refererMatches env0 hotlinkRequest"
    by (simp add: refererMatches_def allowedOrigins_env0 hotlinkRequest_def)
  have e: "[] \<notin> set (allowedOrigins env0)"
    by (simp add: allowedOrigins_env0)
  have a': "prefix ''/api'' (pathname siteRequest)"
    and b': "\<not> prefix ''/api/public'' (pathname siteRequest)"
    by (simp_all add: siteRequest_def)
  have o: "originMatches env0 siteRequest" "headers siteRequest ''origin'' \<noteq> Some []"
    by (simp_all add: originMatches_def allowedOrigins_env0 siteRequest_def)
  show ?thesis
    using C8_forbidden_iff [OF a b, of env0 0 0 0 "rateLimiter 0"]
          C8_forbidden_iff [OF a' b', of env0 0 0 0 "rateLimiter 0"] a b c d e a' b' o
    by simp
qed

text \<open>
  C8 as stated fails for a header that is present and empty when the allow-list
  has an empty entry: the \<^verbatim>\<open>Origin\<close> header is an entry of the allow-list, and the
  request is rejected, because the empty string is falsy.
\<close>

theorem C8_counterexample:
  "prefix ''/api'' (pathname emptyOriginRequest) \<and>
   \<not> prefix ''/api/public'' (pathname emptyOriginRequest) \<and>
   originMatches env1 emptyOriginRequest \<and>
   fst (middleware env1 0 0 0 emptyOriginRequest (rateLimiter 0)) = NextResponse_new ''Forbidden'' 403"
  by (simp add: middleware_def isAllowedOrigin_def isAllowedReferer_def originMatches_def
                truthy_def allowedOrigins_env1 emptyOriginRequest_def)

section \<open>The claims about the price calculator\<close>

lemma findStation_empty: "findStation [] = None"
  by (simp add: findStation_def stationsConfig_def)

lemma routeRate_from_moon: "routeRate ''37s-ko-vi-moon-14'' to = None"
  by (simp add: routeRate_def stationsConfig_def)

lemma routeRate_to_moon: "routeRate from ''37s-ko-vi-moon-14'' = None"
  by (simp add: routeRate_def stationsConfig_def row_def)


lemma calculatePrice_no_TypeError: "calculatePrice request \<noteq> Inl TypeError"
  by (auto simp: calculatePrice_def validateCalculationRequest_def Let_def
           split: sum.splits option.splits if_splits)

lemma calculatePrice_invalid:
  "validateCalculationRequest request = Inl e \<Longrightarrow> calculatePrice request = Inl e"
  by (simp add: calculatePrice_def)



text \<open>
  C3, as the code has it. For every volume and collateral within the bounds of the
  configuration, \<open>calculatePrice\<close> throws a \<open>PriceCalculationError\<close> whenever the
  pickup or the destination station id is \<^verbatim>\<open>37s-ko-vi-moon-14\<close>, a station of the
  configuration; the message is \<^verbatim>\<open>Price route not available\<close> exactly when both ids
  are ids of stations of the configuration. No rate exists for the route, because the
  price matrix names the station \<^verbatim>\<open>37s-ko-vi\<close>, which is the id of no station.
\<close>

theorem C3_no_route:
  assumes "withinBounds request"
    and "pickupStationId request = ''37s-ko-vi-moon-14''
         \<or> destinationStationId request = ''37s-ko-vi-moon-14''"
  shows "(\<exists>m. calculatePrice request = Inl (PriceCalculationError m)) \<and>
         (calculatePrice request =
            Inl (PriceCalculationError (Text ''Price route not available''))) =
           (findStation (pickupStationId request) \<noteq> None \<and>
            findStation (destinationStationId request) \<noteq> None) \<and>
         routeRate (pickupStationId request) (destinationStationId request) = None \<and>
         findStation ''37s-ko-vi-moon-14'' \<noteq> None \<and>
         findStation ''37s-ko-vi'' = None"
proof -
  have none: "routeRate (pickupStationId request) (destinationStationId request) = None"
    using assms(2) routeRate_from_moon routeRate_to_moon by auto
  have v: "validateCalculationRequest request =
      (if pickupStationId request = [] \<or> destinationStationId request = [] then
        Inl (PriceCalculationError (Text ''Pickup and destination stations are required''))
      else if findStation (pickupStationId request) = None then
        Inl (PriceCalculationError (Text ''Invalid pickup station''))
      else if findStation (destinationStationId request) = None then
        Inl (PriceCalculationError (Text ''Invalid destination station''))
      else Inl (PriceCalculationError (Text ''Price route not available'')))"
    using assms(1) none by (auto simp: validateCalculationRequest_def withinBounds_def)
  have moon: "findStation ''37s-ko-vi-moon-14'' \<noteq> None" "findStation ''37s-ko-vi'' = None"
    by (simp_all add: findStation_def stationsConfig_def)
  show ?thesis
    using v moon none findStation_empty
    by (auto simp: calculatePrice_invalid split: if_splits)
qed

text \<open>
  C3 on a request from Jita to the station: both ids are stations of the configuration, and
  the route is not available.
\<close>

theorem C3_witness:
  "withinBounds moonRequest \<and>
   destinationStationId moonRequest = ''37s-ko-vi-moon-14'' \<and>
   findStation (pickupStationId moonRequest) \<noteq> None \<and>
   findStation (destinationStationId moonRequest) \<noteq> None \<and>
   calculatePrice moonRequest = Inl (PriceCalculationError (Text ''Price route not available''))"
proof -
  have b: "withinBounds moonRequest"
    by (simp add: withinBounds_def moonRequest_def stationsConfig_def)
  have d: "destinationStationId moonRequest = ''37s-ko-vi-moon-14''"
    by (simp add: moonRequest_def)
  have f: "findStation (pickupStationId moonRequest) \<noteq> None"
    "findStation (destinationStationId moonRequest) \<noteq> None"
    by (simp_all add: findStation_def stationsConfig_def moonRequest_def)
  show ?thesis
    using C3_no_route [OF b disjI2 [OF d]] b d f by simp
qed

text \<open>
  C3 as stated fixes the message for every other station id; an id that is not in the
  configuration is reported first, with another message.
\<close>

theorem C3_counterexample:
  "withinBounds typoRequest \<and>
   pickupStationId typoRequest = ''37s-ko-vi-moon-14'' \<and>
   calculatePrice typoRequest = Inl (PriceCalculationError (Text ''Invalid destination station'')) \<and>
   calculatePrice typoRequest \<noteq> Inl (PriceCalculationError (Text ''Price route not available''))"
  by (simp add: withinBounds_def calculatePrice_def validateCalculationRequest_def
                findStation_def stationsConfig_def typoRequest_def)

end
